theory Spec2Isabelle
  imports Main "HOL-Library.Char_ord" "HOL-Library.List_Lexorder"
begin

section \<open>The operating system and the libraries, as package golden uses them\<close>

text \<open>
  Package golden (build.go, golden.go) calls \<^verbatim>\<open>os.Stat\<close>, \<^verbatim>\<open>ioutil.ReadFile\<close>,
  \<^verbatim>\<open>ioutil.WriteFile\<close>, \<^verbatim>\<open>path.Join\<close>, \<^verbatim>\<open>filepath.Dir\<close> and the difflib package.
  None of them is code of the repository. The file system is modelled as a state that is
  passed explicitly; the pure library functions are parameters of the model (fields of
  the record \<open>env\<close> below), so every theorem holds for whatever they compute.
\<close>

datatype errno = ENOENT | ENOTDIR | EACCES | EISDIR

text \<open>\<^verbatim>\<open>*os.PathError{Op, Path, Err}\<close>, the error value of the os and ioutil calls.\<close>

datatype oserror = PathError string string errno

text \<open>
  \<^verbatim>\<open>os.IsNotExist(err)\<close>: true exactly for an error whose errno is ENOENT; false for
  \<^verbatim>\<open>nil\<close> (\<open>None\<close>) and for every other errno (ENOTDIR, EACCES, ...).
\<close>

fun IsNotExist :: "oserror option \<Rightarrow> bool" where
  "IsNotExist None = False"
| "IsNotExist (Some (PathError opn name e)) = (e = ENOENT)"

datatype node = RegularFile string | Directory

text \<open>
  A file system maps a path to what looking it up gives: an errno (\<open>Inl ENOENT\<close>: no
  such entry; \<open>Inl ENOTDIR\<close>: a component of the path prefix is not a directory, so no
  such entry either; \<open>Inl EACCES\<close>: a directory of the prefix may not be searched) or
  the node found there.
\<close>

type_synonym filesystem = "string \<Rightarrow> errno + node"

text \<open>\<^verbatim>\<open>_, err := os.Stat(name)\<close>: only the error is used by the package.\<close>

definition Stat :: "filesystem \<Rightarrow> string \<Rightarrow> oserror option" where
  "Stat fs name =
     (case fs name of
        Inl e \<Rightarrow> Some (PathError ''stat'' name e)
      | Inr n \<Rightarrow> None)"

definition ReadFile :: "filesystem \<Rightarrow> string \<Rightarrow> oserror + string" where
  "ReadFile fs filename =
     (case fs filename of
        Inl e \<Rightarrow> Inl (PathError ''open'' filename e)
      | Inr Directory \<Rightarrow> Inl (PathError ''read'' filename EISDIR)
      | Inr (RegularFile contents) \<Rightarrow> Inr contents)"

text \<open>
  \<^verbatim>\<open>ioutil.WriteFile(filename, data, perm)\<close> opens with create and truncate: an existing
  regular file gets \<open>data\<close> as its whole contents, a missing one is created when its
  parent (\<open>parent filename\<close>) is a directory, and every other case is an error that
  leaves the file system as it was. Permission bits are not modelled: a lookup that
  is refused is an entry \<open>Inl EACCES\<close> of the file system.
\<close>

definition WriteFile ::
  "(string \<Rightarrow> string) \<Rightarrow> filesystem \<Rightarrow> string \<Rightarrow> string \<Rightarrow> oserror + filesystem" where
  "WriteFile parent fs filename data =
     (case fs filename of
        Inr (RegularFile old) \<Rightarrow> Inr (fs(filename := Inr (RegularFile data)))
      | Inr Directory \<Rightarrow> Inl (PathError ''open'' filename EISDIR)
      | Inl e \<Rightarrow>
          if e = ENOENT then
            (case fs (parent filename) of
               Inr Directory \<Rightarrow> Inr (fs(filename := Inr (RegularFile data)))
             | Inr (RegularFile other) \<Rightarrow> Inl (PathError ''open'' filename ENOTDIR)
             | Inl e' \<Rightarrow> Inl (PathError ''open'' filename e'))
          else Inl (PathError ''open'' filename e))"

text \<open>
  \<^verbatim>\<open>difflib.UnifiedDiff\<close>, with the fields golden.go sets (\<open>SeqA\<close> and \<open>SeqB\<close> are the
  fields \<^verbatim>\<open>A\<close> and \<^verbatim>\<open>B\<close>).
\<close>

record UnifiedDiff =
  SeqA :: "string list"
  FromFile :: string
  SeqB :: "string list"
  ToFile :: string
  Context :: int

text \<open>
  What lies outside the package: the split GOPATH
  (\<^verbatim>\<open>filepath.SplitList(build.Default.GOPATH)\<close>), the flag \<^verbatim>\<open>-update_golden\<close>, and the
  library functions.
\<close>

record env =
  goPaths :: "string list"
  updateGolden :: bool
  Join :: "string list \<Rightarrow> string"
  Dir :: "string \<Rightarrow> string"
  SplitLines :: "string \<Rightarrow> string list"
  GetUnifiedDiffString :: "UnifiedDiff \<Rightarrow> string + string"

section \<open>build.go\<close>

text \<open>
  The errors of the two resolution functions, one constructor for each
  \<^verbatim>\<open>fmt.Errorf\<close> with its arguments, and \<open>StatFailed\<close> for the error of
  \<^verbatim>\<open>os.Stat\<close> that getFullPathForRead returns as it is:
  \<^item> \<open>GopathEmpty\<close>: \<^verbatim>\<open>GOPATH is empty\<close>
  \<^item> \<open>FileNotFound relPath\<close>: \<^verbatim>\<open>%v: file not found in GOPATH\<close>
  \<^item> \<open>MultipleFiles relPath paths\<close>:
    \<^verbatim>\<open>there are multiple files in the GOPATH with the same relative path %q: %v\<close>
  \<^item> \<open>MultipleDirectories paths\<close>:
    \<^verbatim>\<open>there are multiple suitable directories in the GOPATH: %v\<close>
  \<^item> \<open>NoDirectoryExists dirs\<close>:
    \<^verbatim>\<open>none of these directories in the GOPATH exist: %v\<close>
\<close>

datatype error =
    GopathEmpty
  | FileNotFound string
  | StatFailed oserror
  | MultipleFiles string "string list"
  | MultipleDirectories "string list"
  | NoDirectoryExists "string list"

text \<open>
  The loop of getFullPathForRead over the rest of \<open>goPaths\<close>; \<open>err\<close> is the variable
  \<^verbatim>\<open>err\<close>, which every iteration overwrites. After the loop: the not-found error when
  \<^verbatim>\<open>os.IsNotExist(err)\<close>, and \<^verbatim>\<open>return "", err\<close> otherwise (with \<^verbatim>\<open>err == nil\<close> that
  would be the empty path and no error).
\<close>

fun readLoop ::
  "env \<Rightarrow> filesystem \<Rightarrow> string \<Rightarrow> string list \<Rightarrow> oserror option \<Rightarrow> error + string" where
  "readLoop E fs relPath [] err =
     (if IsNotExist err then Inl (FileNotFound relPath)
      else (case err of None \<Rightarrow> Inr [] | Some e \<Rightarrow> Inl (StatFailed e)))"
| "readLoop E fs relPath (p # ps) err =
     (let fullPath = Join E [p, ''src'', relPath];
          err' = Stat fs fullPath
      in if err' = None then Inr fullPath
         else readLoop E fs relPath ps err')"

definition getFullPathForRead :: "env \<Rightarrow> filesystem \<Rightarrow> string \<Rightarrow> error + string" where
  "getFullPathForRead E fs relPath =
     (if length (goPaths E) = 0 then Inl GopathEmpty
      else readLoop E fs relPath (goPaths E) None)"

text \<open>
  A \<^verbatim>\<open>map[string]bool\<close> whose entries are all \<^verbatim>\<open>true\<close> is the list of its keys, without
  repetition: \<^verbatim>\<open>m[k] = true\<close> is \<open>List.insert k m\<close> and \<^verbatim>\<open>len(m)\<close> is \<open>length m\<close>.
  The code never depends on the order of the keys: it sorts them, or ranges over a
  map with one key.
\<close>

type_synonym keys = "string list"

definition sortedKeys :: "keys \<Rightarrow> string list" where
  "sortedKeys m = sort m"

text \<open>
  The loop of getFullPathForWrite, on the three maps \<^verbatim>\<open>existingFiles\<close>,
  \<^verbatim>\<open>possibleDirectories\<close> and \<^verbatim>\<open>filesWithExistingDir\<close>.
\<close>

fun writeLoop ::
  "env \<Rightarrow> filesystem \<Rightarrow> string \<Rightarrow> string list \<Rightarrow> keys \<times> keys \<times> keys \<Rightarrow> keys \<times> keys \<times> keys" where
  "writeLoop E fs relPath [] maps = maps"
| "writeLoop E fs relPath (p # ps) (existingFiles, possibleDirectories, filesWithExistingDir) =
     (let fullPath = Join E [p, ''src'', relPath];
          existingFiles' =
            (if Stat fs fullPath = None then List.insert fullPath existingFiles
             else existingFiles);
          fullDir = Dir E fullPath;
          possibleDirectories' = List.insert fullDir possibleDirectories;
          filesWithExistingDir' =
            (if Stat fs fullDir = None then List.insert fullPath filesWithExistingDir
             else filesWithExistingDir)
      in writeLoop E fs relPath ps (existingFiles', possibleDirectories', filesWithExistingDir'))"

definition getFullPathForWrite :: "env \<Rightarrow> filesystem \<Rightarrow> string \<Rightarrow> error + string" where
  "getFullPathForWrite E fs relPath =
     (if length (goPaths E) = 0 then Inl GopathEmpty
      else if length (goPaths E) = 1 then Inr (Join E [goPaths E ! 0, ''src'', relPath])
      else
        (case writeLoop E fs relPath (goPaths E) ([], [], []) of
           (existingFiles, possibleDirectories, filesWithExistingDir) \<Rightarrow>
             if length existingFiles > 1 then
               Inl (MultipleFiles relPath (sortedKeys existingFiles))
             else if length existingFiles = 1 then Inr (hd existingFiles)
             else if length filesWithExistingDir > 1 then
               Inl (MultipleDirectories (sortedKeys filesWithExistingDir))
             else if length filesWithExistingDir = 1 then Inr (hd filesWithExistingDir)
             else Inl (NoDirectoryExists (sortedKeys possibleDirectories))))"

definition shouldUpdateGolden :: "env \<Rightarrow> bool" where
  "shouldUpdateGolden E = updateGolden E"

definition formatUpdateCommand :: string where
  "formatUpdateCommand = ''go test -update_golden''"

section \<open>golden.go\<close>

definition newline :: char where
  "newline = CHR 0x0A"

definition dquote :: char where
  "dquote = CHR 0x22"

definition backslash :: char where
  "backslash = CHR 0x5C"

text \<open>
  The verb \<^verbatim>\<open>%q\<close> on a string of printable ASCII characters (the only call has the
  constant of formatUpdateCommand): the string in double quotes, with a backslash
  before a double quote or a backslash.
\<close>

definition Quote :: "string \<Rightarrow> string" where
  "Quote s =
     dquote # concat (map (\<lambda>c. if c = dquote \<or> c = backslash then [backslash, c] else [c]) s)
       @ [dquote]"

text \<open>\<^verbatim>\<open>strings.HasSuffix\<close> and \<^verbatim>\<open>strings.TrimSuffix\<close>.\<close>

definition HasSuffix :: "string \<Rightarrow> string \<Rightarrow> bool" where
  "HasSuffix s suffix =
     (length suffix \<le> length s \<and> drop (length s - length suffix) s = suffix)"

definition TrimSuffix :: "string \<Rightarrow> string \<Rightarrow> string" where
  "TrimSuffix s suffix =
     (if HasSuffix s suffix then take (length s - length suffix) s else s)"

text \<open>
  Every \<^verbatim>\<open>log.Fatalf\<close> and \<^verbatim>\<open>log.Fatal\<close> of Compare ends the process: Compare does
  not return, and the model gives which call it was, with its error.
\<close>

datatype fatal =
    FatalPathForWrite error
  | FatalWrite oserror
  | FatalPathForRead error
  | FatalRead oserror
  | FatalDiff string

text \<open>The line that Compare puts before the diff.\<close>

definition differsLine :: string where
  "differsLine =
     ''Actual data differs from golden data; run '' @ Quote formatUpdateCommand
       @ '' to update'' @ [newline]"

text \<open>
  Compare gives the outcome (the returned string, or the fatal exit) and the file
  system it leaves.
\<close>

definition Compare ::
  "env \<Rightarrow> filesystem \<Rightarrow> string \<Rightarrow> string \<Rightarrow> (fatal + string) \<times> filesystem" where
  "Compare E fs actual goldenFile =
     (if shouldUpdateGolden E then
        (case getFullPathForWrite E fs goldenFile of
           Inl err \<Rightarrow> (Inl (FatalPathForWrite err), fs)
         | Inr fullPath \<Rightarrow>
             (case WriteFile (Dir E) fs fullPath actual of
                Inl err \<Rightarrow> (Inl (FatalWrite err), fs)
              | Inr fs' \<Rightarrow> (Inr [], fs')))
      else
        (case getFullPathForRead E fs goldenFile of
           Inl err \<Rightarrow> (Inl (FatalPathForRead err), fs)
         | Inr fullPath \<Rightarrow>
             (case ReadFile fs fullPath of
                Inl err \<Rightarrow> (Inl (FatalRead err), fs)
              | Inr expected \<Rightarrow>
                  if expected = actual then (Inr [], fs)
                  else
                    (case GetUnifiedDiffString E
                            \<lparr>SeqA = SplitLines E expected,
                             FromFile = goldenFile,
                             SeqB = SplitLines E actual,
                             ToFile = TrimSuffix goldenFile ''.golden'' @ ''.actual'',
                             Context = 3\<rparr> of
                       Inl err \<Rightarrow> (Inl (FatalDiff err), fs)
                     | Inr diffstr \<Rightarrow> (Inr (differsLine @ diffstr), fs)))))"

section \<open>Notions the properties are stated with\<close>

text \<open>
  The candidates of a relative path: \<^verbatim>\<open>path.Join(p, "src", relPath)\<close> for every
  \<open>p\<close> of the split GOPATH, in its order.
\<close>

definition candidates :: "env \<Rightarrow> string \<Rightarrow> string list" where
  "candidates E relPath = map (\<lambda>p. Join E [p, ''src'', relPath]) (goPaths E)"

text \<open>A path exists when \<^verbatim>\<open>os.Stat\<close> gives no error for it.\<close>

definition pathExists :: "filesystem \<Rightarrow> string \<Rightarrow> bool" where
  "pathExists fs name = (Stat fs name = None)"

definition existingCandidates :: "env \<Rightarrow> filesystem \<Rightarrow> string \<Rightarrow> string set" where
  "existingCandidates E fs relPath = set (filter (pathExists fs) (candidates E relPath))"

definition candidatesWithExistingDir :: "env \<Rightarrow> filesystem \<Rightarrow> string \<Rightarrow> string set" where
  "candidatesWithExistingDir E fs relPath =
     set (filter (\<lambda>c. pathExists fs (Dir E c)) (candidates E relPath))"

definition candidateDirs :: "env \<Rightarrow> string \<Rightarrow> string set" where
  "candidateDirs E relPath = set (map (Dir E) (candidates E relPath))"

section \<open>An environment for the examples\<close>

text \<open>
  Stand-ins for the library functions, used only to run the model on the examples
  below. \<open>exampleJoin\<close> is \<^verbatim>\<open>path.Join\<close> without its final \<^verbatim>\<open>Clean\<close>, and
  \<open>exampleDir\<close> cuts the last element off; they agree with \<^verbatim>\<open>path.Join\<close> and
  \<^verbatim>\<open>filepath.Dir\<close> on the paths of the examples (clean paths of two elements or more).
  \<open>exampleSplitLines\<close> is \<^verbatim>\<open>difflib.SplitLines\<close>. \<open>exampleDiff\<close> prints the two
  header lines of a unified diff and then every line of \<open>SeqA\<close> as removed and every
  line of \<open>SeqB\<close> as added; it is not the algorithm of difflib, whose hunks no
  property below depends on.
\<close>

fun slashJoin :: "string list \<Rightarrow> string" where
  "slashJoin [] = []"
| "slashJoin [e] = e"
| "slashJoin (e # es) = e @ ''/'' @ slashJoin es"

definition exampleJoin :: "string list \<Rightarrow> string" where
  "exampleJoin elem = slashJoin (filter (\<lambda>e. e \<noteq> []) elem)"

definition exampleDir :: "string \<Rightarrow> string" where
  "exampleDir path =
     (if CHR ''/'' \<notin> set path then ''.''
      else let d = rev (tl (dropWhile (\<lambda>c. c \<noteq> CHR ''/'') (rev path)))
           in if d = [] then ''/'' else d)"

fun splitAfterNewline :: "string \<Rightarrow> string \<Rightarrow> string list" where
  "splitAfterNewline cur [] = [cur]"
| "splitAfterNewline cur (c # cs) =
     (if c = newline then (cur @ [c]) # splitAfterNewline [] cs
      else splitAfterNewline (cur @ [c]) cs)"

definition exampleSplitLines :: "string \<Rightarrow> string list" where
  "exampleSplitLines s =
     (let lines = splitAfterNewline [] s
      in butlast lines @ [last lines @ [newline]])"

definition exampleDiff :: "UnifiedDiff \<Rightarrow> string + string" where
  "exampleDiff d =
     Inr (''--- '' @ FromFile d @ [newline] @ ''+++ '' @ ToFile d @ [newline]
          @ concat (map (\<lambda>l. CHR ''-'' # l) (SeqA d))
          @ concat (map (\<lambda>l. CHR ''+'' # l) (SeqB d)))"

definition exampleEnv :: "string list \<Rightarrow> bool \<Rightarrow> env" where
  "exampleEnv roots update =
     \<lparr>goPaths = roots, updateGolden = update, Join = exampleJoin, Dir = exampleDir,
      SplitLines = exampleSplitLines, GetUnifiedDiffString = exampleDiff\<rparr>"

definition emptyFS :: filesystem where
  "emptyFS = (\<lambda>name. Inl ENOENT)"

text \<open>
  The files of the third environment of TestGetFullPath (\<^verbatim>\<open>build_test.go\<close>), with shorter
  names: \<^verbatim>\<open>a.txt\<close> under the first root, \<^verbatim>\<open>b.txt\<close> under the second, \<^verbatim>\<open>d.txt\<close> under
  both, and a directory that only one root has (\<^verbatim>\<open>baz\<close>, \<^verbatim>\<open>bar\<close>).
\<close>

definition testFS :: filesystem where
  "testFS = emptyFS
     (''/p1/src/foobar'' := Inr Directory,
      ''/p2/src/foobar'' := Inr Directory,
      ''/p1/src/baz'' := Inr Directory,
      ''/p2/src/bar'' := Inr Directory,
      ''/p1/src/foobar/a.txt'' := Inr (RegularFile []),
      ''/p2/src/foobar/b.txt'' := Inr (RegularFile []),
      ''/p1/src/foobar/d.txt'' := Inr (RegularFile []),
      ''/p2/src/foobar/d.txt'' := Inr (RegularFile []))"

text \<open>
  A file system in which the second root \<^verbatim>\<open>/p2\<close> is a regular file: nothing exists
  below it, and looking a path up there fails with ENOTDIR.
\<close>

definition rootIsFileFS :: filesystem where
  "rootIsFileFS = emptyFS
     (''/p2'' := Inr (RegularFile []),
      ''/p2/src'' := Inl ENOTDIR,
      ''/p2/src/foobar'' := Inl ENOTDIR,
      ''/p2/src/foobar/c.txt'' := Inl ENOTDIR)"

text \<open>
  A golden file under the first root (as \<^verbatim>\<open>testdata/haiku.txt.golden\<close> of
  \<^verbatim>\<open>golden_test.go\<close>, with one line), and the directory that TestUpdateGolden makes
  before it calls Compare.
\<close>

definition goldenFS :: filesystem where
  "goldenFS = emptyFS
     (''/p1/src/testdata'' := Inr Directory,
      ''/p1/src/testdata/haiku.txt.golden'' := Inr (RegularFile (''many bits'' @ [newline])))"

definition updateFS :: filesystem where
  "updateFS = emptyFS (''/tmp/src/fake/testdata'' := Inr Directory)"

section \<open>The loops\<close>

lemma readLoop_first:
  "i < length ps \<Longrightarrow> Stat fs (Join E [ps ! i, ''src'', relPath]) = None \<Longrightarrow>
   \<forall>j<i. Stat fs (Join E [ps ! j, ''src'', relPath]) \<noteq> None \<Longrightarrow>
   readLoop E fs relPath ps err = Inr (Join E [ps ! i, ''src'', relPath])"
proof (induction ps arbitrary: i err)
  case Nil
  then show ?case by simp
next
  case (Cons p ps)
  show ?case
  proof (cases i)
    case 0
    with Cons.prems show ?thesis by (simp add: Let_def)
  next
    case (Suc k)
    with Cons.prems have "Stat fs (Join E [p, ''src'', relPath]) \<noteq> None"
      by auto
    then obtain e where e: "Stat fs (Join E [p, ''src'', relPath]) = Some e"
      by auto
    have "readLoop E fs relPath ps (Stat fs (Join E [p, ''src'', relPath]))
        = Inr (Join E [ps ! k, ''src'', relPath])"
    proof (rule Cons.IH)
      show "k < length ps" using Cons.prems(1) Suc by simp
      show "Stat fs (Join E [ps ! k, ''src'', relPath]) = None"
        using Cons.prems(2) Suc by simp
      show "\<forall>j<k. Stat fs (Join E [ps ! j, ''src'', relPath]) \<noteq> None"
        using Cons.prems(3) Suc by auto
    qed
    then show ?thesis using Suc e by (simp add: Let_def)
  qed
qed

lemma readLoop_all_fail:
  "ps \<noteq> [] \<Longrightarrow> \<forall>p \<in> set ps. Stat fs (Join E [p, ''src'', relPath]) \<noteq> None
   \<Longrightarrow> \<exists>e. Stat fs (Join E [last ps, ''src'', relPath]) = Some e \<and>
         readLoop E fs relPath ps err =
           (if IsNotExist (Some e) then Inl (FileNotFound relPath) else Inl (StatFailed e))"
proof (induction ps arbitrary: err)
  case Nil
  then show ?case by simp
next
  case (Cons p ps)
  show ?case
  proof (cases "ps = []")
    case True
    with Cons.prems show ?thesis by (auto simp: Let_def)
  next
    case False
    with Cons show ?thesis by (auto simp: Let_def)
  qed
qed

lemma readLoop_result_is_candidate:
  "readLoop E fs relPath ps err = Inr c \<Longrightarrow> err \<noteq> None \<or> ps \<noteq> [] \<Longrightarrow>
   c \<in> (\<lambda>p. Join E [p, ''src'', relPath]) ` set ps"
  by (induction ps arbitrary: err) (auto simp: Let_def split: if_splits option.splits)

lemma readLoop_unique_existing:
  assumes "c \<in> (\<lambda>p. Join E [p, ''src'', relPath]) ` set ps"
    and "Stat fs c = None"
    and "\<forall>p \<in> set ps. Stat fs (Join E [p, ''src'', relPath]) = None
           \<longrightarrow> Join E [p, ''src'', relPath] = c"
  shows "readLoop E fs relPath ps err = Inr c"
  using assms by (induction ps arbitrary: err) (auto simp: Let_def)

lemma writeLoop_sets:
  "writeLoop E fs relPath ps (ef, pd, fd) = (ef', pd', fd') \<Longrightarrow>
     set ef' = set ef \<union> set (filter (pathExists fs) (map (\<lambda>p. Join E [p, ''src'', relPath]) ps)) \<and>
     set pd' = set pd \<union> set (map (Dir E) (map (\<lambda>p. Join E [p, ''src'', relPath]) ps)) \<and>
     set fd' = set fd \<union>
       set (filter (\<lambda>c. pathExists fs (Dir E c)) (map (\<lambda>p. Join E [p, ''src'', relPath]) ps))"
proof (induction ps arbitrary: ef pd fd)
  case Nil
  then show ?case by simp
next
  case (Cons p ps)
  let ?c = "Join E [p, ''src'', relPath]"
  let ?ef = "if Stat fs ?c = None then List.insert ?c ef else ef"
  let ?pd = "List.insert (Dir E ?c) pd"
  let ?fd = "if Stat fs (Dir E ?c) = None then List.insert ?c fd else fd"
  from Cons.prems have "writeLoop E fs relPath ps (?ef, ?pd, ?fd) = (ef', pd', fd')"
    by (simp add: Let_def)
  from Cons.IH [OF this] show ?case
    by (auto simp: pathExists_def)
qed

lemma writeLoop_distinct:
  "writeLoop E fs relPath ps (ef, pd, fd) = (ef', pd', fd') \<Longrightarrow>
     distinct ef \<Longrightarrow> distinct pd \<Longrightarrow> distinct fd \<Longrightarrow>
     distinct ef' \<and> distinct pd' \<and> distinct fd'"
proof (induction ps arbitrary: ef pd fd)
  case Nil
  then show ?case by simp
next
  case (Cons p ps)
  let ?c = "Join E [p, ''src'', relPath]"
  let ?ef = "if Stat fs ?c = None then List.insert ?c ef else ef"
  let ?pd = "List.insert (Dir E ?c) pd"
  let ?fd = "if Stat fs (Dir E ?c) = None then List.insert ?c fd else fd"
  from Cons.prems(1) have "writeLoop E fs relPath ps (?ef, ?pd, ?fd) = (ef', pd', fd')"
    by (simp add: Let_def)
  moreover have "distinct ?ef" "distinct ?pd" "distinct ?fd"
    using Cons.prems(2-4) by simp_all
  ultimately show ?case
    by (rule Cons.IH)
qed

text \<open>What the three maps hold after the loop of getFullPathForWrite.\<close>

lemma writeLoop_maps:
  assumes "writeLoop E fs relPath (goPaths E) ([], [], []) = (ef, pd, fd)"
  shows "set ef = existingCandidates E fs relPath \<and> distinct ef \<and>
         set pd = candidateDirs E relPath \<and> distinct pd \<and>
         set fd = candidatesWithExistingDir E fs relPath \<and> distinct fd"
  using writeLoop_sets [OF assms] writeLoop_distinct [OF assms]
  by (simp add: existingCandidates_def candidateDirs_def candidatesWithExistingDir_def
      candidates_def)

lemma sortedKeys_distinct:
  "distinct m \<Longrightarrow> sortedKeys m = sorted_list_of_set (set m)"
  by (simp add: sortedKeys_def sorted_list_of_set_sort_remdups distinct_remdups_id)

lemma one_key:
  "length m = 1 \<Longrightarrow> set m = {hd m}"
  by (cases m) auto

lemmas example_defs =
  exampleEnv_def exampleJoin_def exampleDir_def testFS_def emptyFS_def
  candidates_def pathExists_def Stat_def

section \<open>Helpers on getFullPathForWrite\<close>

lemma getFullPathForWrite_many:
  assumes "2 \<le> length (goPaths E)"
  obtains ef pd fd where
    "writeLoop E fs relPath (goPaths E) ([], [], []) = (ef, pd, fd)"
    "getFullPathForWrite E fs relPath =
       (if length ef > 1 then Inl (MultipleFiles relPath (sortedKeys ef))
        else if length ef = 1 then Inr (hd ef)
        else if length fd > 1 then Inl (MultipleDirectories (sortedKeys fd))
        else if length fd = 1 then Inr (hd fd)
        else Inl (NoDirectoryExists (sortedKeys pd)))"
proof -
  obtain ef pd fd where w: "writeLoop E fs relPath (goPaths E) ([], [], []) = (ef, pd, fd)"
    by (cases "writeLoop E fs relPath (goPaths E) ([], [], [])") auto
  from assms have "length (goPaths E) \<noteq> 0" "length (goPaths E) \<noteq> 1"
    by auto
  then have "getFullPathForWrite E fs relPath =
       (if length ef > 1 then Inl (MultipleFiles relPath (sortedKeys ef))
        else if length ef = 1 then Inr (hd ef)
        else if length fd > 1 then Inl (MultipleDirectories (sortedKeys fd))
        else if length fd = 1 then Inr (hd fd)
        else Inl (NoDirectoryExists (sortedKeys pd)))"
    by (simp add: getFullPathForWrite_def w)
  with w show thesis by (rule that)
qed

text \<open>
  With two roots or more, a path that getFullPathForWrite returns is the only candidate
  that exists, or no candidate exists and it is the only one whose directory exists.
\<close>

lemma getFullPathForWrite_many_Inr:
  assumes "2 \<le> length (goPaths E)" and "getFullPathForWrite E fs relPath = Inr path"
  shows "existingCandidates E fs relPath = {path} \<or>
         existingCandidates E fs relPath = {} \<and> candidatesWithExistingDir E fs relPath = {path}"
proof -
  from assms(1) obtain ef pd fd where
    w: "writeLoop E fs relPath (goPaths E) ([], [], []) = (ef, pd, fd)" and
    r: "getFullPathForWrite E fs relPath =
       (if length ef > 1 then Inl (MultipleFiles relPath (sortedKeys ef))
        else if length ef = 1 then Inr (hd ef)
        else if length fd > 1 then Inl (MultipleDirectories (sortedKeys fd))
        else if length fd = 1 then Inr (hd fd)
        else Inl (NoDirectoryExists (sortedKeys pd)))"
    by (rule getFullPathForWrite_many)
  note m = writeLoop_maps [OF w]
  show ?thesis
  proof (cases "length ef = 1")
    case True
    with r assms(2) have "hd ef = path" by simp
    with one_key [OF True] m show ?thesis by simp
  next
    case False
    with r assms(2) have "\<not> 1 < length ef" and fd: "length fd = 1" and p: "hd fd = path"
      by (auto split: if_splits)
    with False have "length ef = 0" by arith
    then have "ef = []" by simp
    with one_key [OF fd] p m show ?thesis by simp
  qed
qed

lemma getFullPathForWrite_Inr_candidate:
  assumes "getFullPathForWrite E fs relPath = Inr path"
  shows "path \<in> set (candidates E relPath)"
proof (cases "2 \<le> length (goPaths E)")
  case True
  from getFullPathForWrite_many_Inr [OF True assms]
  have "path \<in> existingCandidates E fs relPath \<or> path \<in> candidatesWithExistingDir E fs relPath"
    by auto
  then show ?thesis
    by (auto simp: existingCandidates_def candidatesWithExistingDir_def)
next
  case False
  then have "length (goPaths E) = 0 \<or> length (goPaths E) = 1"
    by arith
  with assms have "length (goPaths E) = 1"
    by (auto simp: getFullPathForWrite_def)
  then obtain root where "goPaths E = [root]"
    by (cases "goPaths E") auto
  with assms show ?thesis
    by (simp add: getFullPathForWrite_def candidates_def)
qed

section \<open>Empty GOPATH\<close>

text \<open>
  C7: for every relative path, when the split GOPATH is empty both getFullPathForRead
  and getFullPathForWrite fail with the error \<^verbatim>\<open>GOPATH is empty\<close> and return no path.
\<close>

theorem empty_GOPATH_is_an_error:
  assumes "goPaths E = []"
  shows "getFullPathForRead E fs relPath = Inl GopathEmpty \<and>
         getFullPathForWrite E fs relPath = Inl GopathEmpty"
  using assms by (simp add: getFullPathForRead_def getFullPathForWrite_def)

theorem empty_GOPATH_is_an_error_witness:
  "goPaths (exampleEnv [] False) = [] \<and>
   getFullPathForRead (exampleEnv [] False) testFS ''foobar/hi.txt'' = Inl GopathEmpty \<and>
   getFullPathForWrite (exampleEnv [] False) testFS ''foobar/hi.txt'' = Inl GopathEmpty"
proof -
  have h: "goPaths (exampleEnv [] False) = []"
    by (simp add: exampleEnv_def)
  from empty_GOPATH_is_an_error [OF h] h show ?thesis
    by simp
qed

section \<open>One root\<close>

text \<open>
  C6: with exactly one root, getFullPathForWrite returns
  \<^verbatim>\<open>path.Join(root, "src", relPath)\<close> whatever the file system holds: the result is the
  same for every two file systems \<open>fs\<close> and \<open>fs'\<close>, and it is never an error, also when
  the directory of the candidate is missing.
\<close>

theorem single_root_write_unconditional:
  assumes "goPaths E = [root]"
  shows "getFullPathForWrite E fs relPath = Inr (Join E [root, ''src'', relPath]) \<and>
         getFullPathForWrite E fs' relPath = getFullPathForWrite E fs relPath"
  using assms by (simp add: getFullPathForWrite_def)

theorem single_root_write_unconditional_witness:
  "goPaths (exampleEnv [''/p1''] True) = [''/p1''] \<and>
   \<not> pathExists emptyFS ''/p1/src/newdir'' \<and>
   getFullPathForWrite (exampleEnv [''/p1''] True) emptyFS ''newdir/new.txt''
     = Inr ''/p1/src/newdir/new.txt'' \<and>
   getFullPathForWrite (exampleEnv [''/p1''] True) testFS ''newdir/new.txt''
     = Inr ''/p1/src/newdir/new.txt''"
proof -
  have h: "goPaths (exampleEnv [''/p1''] True) = [''/p1'']"
    by (simp add: exampleEnv_def)
  from single_root_write_unconditional [OF h, of emptyFS "''newdir/new.txt''" testFS]
  show ?thesis
    by (simp add: example_defs)
qed

section \<open>Reading\<close>

text \<open>
  C2: with a non-empty root list, getFullPathForRead returns the first candidate, in
  the order of the roots, that exists: when the candidate of index \<open>i\<close> exists and no
  candidate before it does, the result is that candidate. Later candidates may exist
  as well; the result is a path, and neither of the two errors about ambiguity.
\<close>

theorem read_returns_first_existing:
  assumes "goPaths E \<noteq> []"
    and "i < length (candidates E relPath)"
    and "pathExists fs (candidates E relPath ! i)"
    and "\<forall>j<i. \<not> pathExists fs (candidates E relPath ! j)"
  shows "getFullPathForRead E fs relPath = Inr (candidates E relPath ! i) \<and>
         (\<forall>r paths. getFullPathForRead E fs relPath \<noteq> Inl (MultipleFiles r paths) \<and>
                    getFullPathForRead E fs relPath \<noteq> Inl (MultipleDirectories paths))"
proof -
  from assms(2) have i: "i < length (goPaths E)"
    by (simp add: candidates_def)
  have "readLoop E fs relPath (goPaths E) None = Inr (Join E [goPaths E ! i, ''src'', relPath])"
  proof (rule readLoop_first [OF i])
    show "Stat fs (Join E [goPaths E ! i, ''src'', relPath]) = None"
      using assms(3) i by (simp add: candidates_def pathExists_def)
    show "\<forall>j<i. Stat fs (Join E [goPaths E ! j, ''src'', relPath]) \<noteq> None"
      using assms(4) i by (simp add: candidates_def pathExists_def)
  qed
  with assms(1) i show ?thesis
    by (simp add: getFullPathForRead_def candidates_def)
qed

theorem read_returns_first_existing_witness:
  "goPaths (exampleEnv [''/p1'', ''/p2''] False) \<noteq> [] \<and>
   pathExists testFS ''/p1/src/foobar/d.txt'' \<and>
   pathExists testFS ''/p2/src/foobar/d.txt'' \<and>
   getFullPathForRead (exampleEnv [''/p1'', ''/p2''] False) testFS ''foobar/d.txt''
     = Inr ''/p1/src/foobar/d.txt'' \<and>
   getFullPathForRead (exampleEnv [''/p2'', ''/p1''] False) testFS ''foobar/d.txt''
     = Inr ''/p2/src/foobar/d.txt'' \<and>
   \<not> pathExists testFS ''/p1/src/foobar/b.txt'' \<and>
   getFullPathForRead (exampleEnv [''/p1'', ''/p2''] False) testFS ''foobar/b.txt''
     = Inr ''/p2/src/foobar/b.txt''"
proof -
  have a: "getFullPathForRead (exampleEnv [''/p1'', ''/p2''] False) testFS ''foobar/d.txt''
     = Inr (candidates (exampleEnv [''/p1'', ''/p2''] False) ''foobar/d.txt'' ! 0)"
    by (rule read_returns_first_existing [THEN conjunct1]) (simp_all add: example_defs)
  have b: "getFullPathForRead (exampleEnv [''/p2'', ''/p1''] False) testFS ''foobar/d.txt''
     = Inr (candidates (exampleEnv [''/p2'', ''/p1''] False) ''foobar/d.txt'' ! 0)"
    by (rule read_returns_first_existing [THEN conjunct1]) (simp_all add: example_defs)
  have c: "getFullPathForRead (exampleEnv [''/p1'', ''/p2''] False) testFS ''foobar/b.txt''
     = Inr (candidates (exampleEnv [''/p1'', ''/p2''] False) ''foobar/b.txt'' ! 1)"
    by (rule read_returns_first_existing [THEN conjunct1]) (simp_all add: example_defs)
  from a b c show ?thesis
    by (simp add: example_defs)
qed

section \<open>No candidate exists\<close>

text \<open>
  C8 as it is stated (no candidate exists, so the error is the not-found error that
  names the relative path) fails on the code. In \<open>rootIsFileFS\<close> the second root
  \<^verbatim>\<open>/p2\<close> is a regular file, so neither candidate exists; \<^verbatim>\<open>os.Stat\<close> of the last
  candidate fails with ENOTDIR, \<^verbatim>\<open>os.IsNotExist\<close> is false for it, and getFullPathForRead
  returns that error of \<^verbatim>\<open>os.Stat\<close> as it is.
\<close>

theorem read_not_found_counterexample:
  "goPaths (exampleEnv [''/p1'', ''/p2''] False) \<noteq> [] \<and>
   candidates (exampleEnv [''/p1'', ''/p2''] False) ''foobar/c.txt''
     = [''/p1/src/foobar/c.txt'', ''/p2/src/foobar/c.txt''] \<and>
   \<not> pathExists rootIsFileFS ''/p1/src/foobar/c.txt'' \<and>
   \<not> pathExists rootIsFileFS ''/p2/src/foobar/c.txt'' \<and>
   getFullPathForRead (exampleEnv [''/p1'', ''/p2''] False) rootIsFileFS ''foobar/c.txt''
     = Inl (StatFailed (PathError ''stat'' ''/p2/src/foobar/c.txt'' ENOTDIR)) \<and>
   getFullPathForRead (exampleEnv [''/p1'', ''/p2''] False) rootIsFileFS ''foobar/c.txt''
     \<noteq> Inl (FileNotFound ''foobar/c.txt'')"
  by (simp add: getFullPathForRead_def rootIsFileFS_def example_defs)

text \<open>
  C8, amended: with a non-empty root list, when no candidate exists getFullPathForRead
  returns no path. The error is the not-found error that names the relative path when
  \<^verbatim>\<open>os.IsNotExist\<close> holds for the error of \<^verbatim>\<open>os.Stat\<close> on the candidate of the last root
  (its errno is ENOENT), and it is that error of \<^verbatim>\<open>os.Stat\<close> itself otherwise.
\<close>

theorem read_fails_when_none_exists:
  assumes "goPaths E \<noteq> []"
    and "\<forall>c \<in> set (candidates E relPath). \<not> pathExists fs c"
  shows "\<exists>e. Stat fs (last (candidates E relPath)) = Some e \<and>
           getFullPathForRead E fs relPath =
             (if IsNotExist (Some e) then Inl (FileNotFound relPath) else Inl (StatFailed e))"
proof -
  from assms(2) have "\<forall>p \<in> set (goPaths E). Stat fs (Join E [p, ''src'', relPath]) \<noteq> None"
    by (simp add: candidates_def pathExists_def)
  from readLoop_all_fail [OF assms(1) this, of None] assms(1) show ?thesis
    by (simp add: getFullPathForRead_def candidates_def last_map)
qed

theorem read_fails_when_none_exists_witness:
  "goPaths (exampleEnv [''/p1'', ''/p2''] False) \<noteq> [] \<and>
   \<not> pathExists testFS ''/p1/src/foobar/c.txt'' \<and>
   \<not> pathExists testFS ''/p2/src/foobar/c.txt'' \<and>
   getFullPathForRead (exampleEnv [''/p1'', ''/p2''] False) testFS ''foobar/c.txt''
     = Inl (FileNotFound ''foobar/c.txt'')"
proof -
  have h: "goPaths (exampleEnv [''/p1'', ''/p2''] False) \<noteq> []"
    by (simp add: exampleEnv_def)
  have n: "\<forall>c \<in> set (candidates (exampleEnv [''/p1'', ''/p2''] False) ''foobar/c.txt'').
             \<not> pathExists testFS c"
    by (simp add: example_defs)
  from read_fails_when_none_exists [OF h n] show ?thesis
    by (simp add: example_defs)
qed

section \<open>The resolved path is a candidate\<close>

text \<open>
  C10: a path that getFullPathForRead or getFullPathForWrite returns is
  \<^verbatim>\<open>path.Join(root, "src", relPath)\<close> for a root of the split GOPATH.
\<close>

theorem resolved_path_is_a_candidate:
  "(getFullPathForRead E fs relPath = Inr path \<longrightarrow>
      (\<exists>root \<in> set (goPaths E). path = Join E [root, ''src'', relPath])) \<and>
   (getFullPathForWrite E fs relPath = Inr path \<longrightarrow>
      (\<exists>root \<in> set (goPaths E). path = Join E [root, ''src'', relPath]))"
proof (intro conjI impI)
  assume r: "getFullPathForRead E fs relPath = Inr path"
  then have "goPaths E \<noteq> []" and "readLoop E fs relPath (goPaths E) None = Inr path"
    by (auto simp: getFullPathForRead_def split: if_splits)
  from readLoop_result_is_candidate [OF this(2)] this(1)
  show "\<exists>root \<in> set (goPaths E). path = Join E [root, ''src'', relPath]"
    by auto
next
  assume "getFullPathForWrite E fs relPath = Inr path"
  from getFullPathForWrite_Inr_candidate [OF this]
  show "\<exists>root \<in> set (goPaths E). path = Join E [root, ''src'', relPath]"
    by (auto simp: candidates_def)
qed

theorem resolved_path_is_a_candidate_witness:
  "getFullPathForRead (exampleEnv [''/p1'', ''/p2''] False) testFS ''foobar/b.txt''
     = Inr ''/p2/src/foobar/b.txt'' \<and>
   getFullPathForWrite (exampleEnv [''/p1'', ''/p2''] False) testFS ''foobar/b.txt''
     = Inr ''/p2/src/foobar/b.txt'' \<and>
   (\<exists>root \<in> set (goPaths (exampleEnv [''/p1'', ''/p2''] False)).
      ''/p2/src/foobar/b.txt'' = Join (exampleEnv [''/p1'', ''/p2''] False) [root, ''src'', ''foobar/b.txt''])"
proof -
  have r: "getFullPathForRead (exampleEnv [''/p1'', ''/p2''] False) testFS ''foobar/b.txt''
     = Inr ''/p2/src/foobar/b.txt''"
    by (simp add: getFullPathForRead_def example_defs)
  have w: "getFullPathForWrite (exampleEnv [''/p1'', ''/p2''] False) testFS ''foobar/b.txt''
     = Inr ''/p2/src/foobar/b.txt''"
    by code_simp
  from resolved_path_is_a_candidate
    [of "exampleEnv [''/p1'', ''/p2''] False" testFS "''foobar/b.txt''" "''/p2/src/foobar/b.txt''",
      THEN conjunct1, rule_format, OF r]
  have "\<exists>root \<in> set (goPaths (exampleEnv [''/p1'', ''/p2''] False)).
      ''/p2/src/foobar/b.txt'' = Join (exampleEnv [''/p1'', ''/p2''] False) [root, ''src'', ''foobar/b.txt'']" .
  with r w show ?thesis by (intro conjI)
qed

section \<open>The decision order of getFullPathForWrite\<close>

text \<open>
  C1: with two roots or more, getFullPathForWrite decides in this order, on the set of
  the candidates that exist and the set of the candidates whose directory exists
  (a path exists when \<^verbatim>\<open>os.Stat\<close> gives no error for it; the code does not look at
  the kind of the entry):
  more than one candidate exists: the error MultipleFiles with these candidates, sorted;
  exactly one exists: that candidate; none exists and more than one has an existing
  directory: the error MultipleDirectories with these candidates, sorted; none exists
  and exactly one has an existing directory: that candidate; otherwise the error
  NoDirectoryExists with the directories of all candidates, sorted. The order of
  \<open>sorted_list_of_set\<close> on strings is the lexicographic order on bytes, the order of
  \<^verbatim>\<open>sort.Strings\<close>.
\<close>

theorem write_decision_order:
  assumes "2 \<le> length (goPaths E)"
  shows
   "(1 < card (existingCandidates E fs relPath) \<longrightarrow>
       getFullPathForWrite E fs relPath =
         Inl (MultipleFiles relPath (sorted_list_of_set (existingCandidates E fs relPath)))) \<and>
    (card (existingCandidates E fs relPath) = 1 \<longrightarrow>
       (\<exists>path. existingCandidates E fs relPath = {path} \<and>
               getFullPathForWrite E fs relPath = Inr path)) \<and>
    (card (existingCandidates E fs relPath) = 0 \<and>
     1 < card (candidatesWithExistingDir E fs relPath) \<longrightarrow>
       getFullPathForWrite E fs relPath =
         Inl (MultipleDirectories (sorted_list_of_set (candidatesWithExistingDir E fs relPath)))) \<and>
    (card (existingCandidates E fs relPath) = 0 \<and>
     card (candidatesWithExistingDir E fs relPath) = 1 \<longrightarrow>
       (\<exists>path. candidatesWithExistingDir E fs relPath = {path} \<and>
               getFullPathForWrite E fs relPath = Inr path)) \<and>
    (card (existingCandidates E fs relPath) = 0 \<and>
     card (candidatesWithExistingDir E fs relPath) = 0 \<longrightarrow>
       getFullPathForWrite E fs relPath =
         Inl (NoDirectoryExists (sorted_list_of_set (candidateDirs E relPath))))"
proof -
  from assms obtain ef pd fd where
    w: "writeLoop E fs relPath (goPaths E) ([], [], []) = (ef, pd, fd)" and
    r: "getFullPathForWrite E fs relPath =
       (if length ef > 1 then Inl (MultipleFiles relPath (sortedKeys ef))
        else if length ef = 1 then Inr (hd ef)
        else if length fd > 1 then Inl (MultipleDirectories (sortedKeys fd))
        else if length fd = 1 then Inr (hd fd)
        else Inl (NoDirectoryExists (sortedKeys pd)))"
    by (rule getFullPathForWrite_many)
  note m = writeLoop_maps [OF w]
  from m have cef: "card (existingCandidates E fs relPath) = length ef"
    by (metis distinct_card)
  from m have cfd: "card (candidatesWithExistingDir E fs relPath) = length fd"
    by (metis distinct_card)
  from m have sef: "sortedKeys ef = sorted_list_of_set (existingCandidates E fs relPath)"
    by (metis sortedKeys_distinct)
  from m have sfd: "sortedKeys fd = sorted_list_of_set (candidatesWithExistingDir E fs relPath)"
    by (metis sortedKeys_distinct)
  from m have spd: "sortedKeys pd = sorted_list_of_set (candidateDirs E relPath)"
    by (metis sortedKeys_distinct)
  have hef: "length ef = 1 \<Longrightarrow> existingCandidates E fs relPath = {hd ef}"
    using one_key [of ef] m by simp
  have hfd: "length fd = 1 \<Longrightarrow> candidatesWithExistingDir E fs relPath = {hd fd}"
    using one_key [of fd] m by simp
  show ?thesis
    unfolding cef cfd r
    using sef sfd spd hef hfd by simp
qed

theorem write_decision_order_witness:
  "2 \<le> length (goPaths (exampleEnv [''/p2'', ''/p1''] True)) \<and>
   card (existingCandidates (exampleEnv [''/p2'', ''/p1''] True) testFS ''foobar/d.txt'') = 2 \<and>
   getFullPathForWrite (exampleEnv [''/p2'', ''/p1''] True) testFS ''foobar/d.txt''
     = Inl (MultipleFiles ''foobar/d.txt'' [''/p1/src/foobar/d.txt'', ''/p2/src/foobar/d.txt'']) \<and>
   card (existingCandidates (exampleEnv [''/p2'', ''/p1''] True) testFS ''foobar/a.txt'') = 1 \<and>
   getFullPathForWrite (exampleEnv [''/p2'', ''/p1''] True) testFS ''foobar/a.txt''
     = Inr ''/p1/src/foobar/a.txt'' \<and>
   card (existingCandidates (exampleEnv [''/p2'', ''/p1''] True) testFS ''foobar/c.txt'') = 0 \<and>
   card (candidatesWithExistingDir (exampleEnv [''/p2'', ''/p1''] True) testFS ''foobar/c.txt'') = 2 \<and>
   getFullPathForWrite (exampleEnv [''/p2'', ''/p1''] True) testFS ''foobar/c.txt''
     = Inl (MultipleDirectories [''/p1/src/foobar/c.txt'', ''/p2/src/foobar/c.txt'']) \<and>
   card (existingCandidates (exampleEnv [''/p2'', ''/p1''] True) testFS ''baz/a.txt'') = 0 \<and>
   card (candidatesWithExistingDir (exampleEnv [''/p2'', ''/p1''] True) testFS ''baz/a.txt'') = 1 \<and>
   getFullPathForWrite (exampleEnv [''/p2'', ''/p1''] True) testFS ''baz/a.txt''
     = Inr ''/p1/src/baz/a.txt'' \<and>
   card (existingCandidates (exampleEnv [''/p2'', ''/p1''] True) testFS ''nosuchdir/a.txt'') = 0 \<and>
   card (candidatesWithExistingDir (exampleEnv [''/p2'', ''/p1''] True) testFS ''nosuchdir/a.txt'') = 0 \<and>
   getFullPathForWrite (exampleEnv [''/p2'', ''/p1''] True) testFS ''nosuchdir/a.txt''
     = Inl (NoDirectoryExists [''/p1/src/nosuchdir'', ''/p2/src/nosuchdir''])"
proof -
  let ?E = "exampleEnv [''/p2'', ''/p1''] True"
  have h: "2 \<le> length (goPaths ?E)"
    by (simp add: exampleEnv_def)
  have d1: "card (existingCandidates ?E testFS ''foobar/d.txt'') = 2"
    by code_simp
  have d2: "sorted_list_of_set (existingCandidates ?E testFS ''foobar/d.txt'')
      = [''/p1/src/foobar/d.txt'', ''/p2/src/foobar/d.txt'']"
    by code_simp
  have d: "getFullPathForWrite ?E testFS ''foobar/d.txt''
     = Inl (MultipleFiles ''foobar/d.txt'' [''/p1/src/foobar/d.txt'', ''/p2/src/foobar/d.txt''])"
    using write_decision_order [OF h, of testFS "''foobar/d.txt''"] d1 d2 by simp
  have a1: "card (existingCandidates ?E testFS ''foobar/a.txt'') = 1"
    by code_simp
  have a2: "existingCandidates ?E testFS ''foobar/a.txt'' = {''/p1/src/foobar/a.txt''}"
    by (simp add: existingCandidates_def example_defs)
  have a: "getFullPathForWrite ?E testFS ''foobar/a.txt'' = Inr ''/p1/src/foobar/a.txt''"
    using write_decision_order [OF h, of testFS "''foobar/a.txt''"] a1 a2 by simp
  have c1: "card (existingCandidates ?E testFS ''foobar/c.txt'') = 0"
    by code_simp
  have c2: "card (candidatesWithExistingDir ?E testFS ''foobar/c.txt'') = 2"
    by code_simp
  have c3: "sorted_list_of_set (candidatesWithExistingDir ?E testFS ''foobar/c.txt'')
      = [''/p1/src/foobar/c.txt'', ''/p2/src/foobar/c.txt'']"
    by code_simp
  have c: "getFullPathForWrite ?E testFS ''foobar/c.txt''
     = Inl (MultipleDirectories [''/p1/src/foobar/c.txt'', ''/p2/src/foobar/c.txt''])"
    using write_decision_order [OF h, of testFS "''foobar/c.txt''"] c1 c2 c3 by simp
  have b1: "card (existingCandidates ?E testFS ''baz/a.txt'') = 0"
    by code_simp
  have b2: "card (candidatesWithExistingDir ?E testFS ''baz/a.txt'') = 1"
    by code_simp
  have b3: "candidatesWithExistingDir ?E testFS ''baz/a.txt'' = {''/p1/src/baz/a.txt''}"
    by (simp add: candidatesWithExistingDir_def example_defs)
  have b: "getFullPathForWrite ?E testFS ''baz/a.txt'' = Inr ''/p1/src/baz/a.txt''"
    using write_decision_order [OF h, of testFS "''baz/a.txt''"] b1 b2 b3 by simp
  have n1: "card (existingCandidates ?E testFS ''nosuchdir/a.txt'') = 0"
    by code_simp
  have n2: "card (candidatesWithExistingDir ?E testFS ''nosuchdir/a.txt'') = 0"
    by code_simp
  have n3: "sorted_list_of_set (candidateDirs ?E ''nosuchdir/a.txt'')
      = [''/p1/src/nosuchdir'', ''/p2/src/nosuchdir'']"
    by code_simp
  have n: "getFullPathForWrite ?E testFS ''nosuchdir/a.txt''
     = Inl (NoDirectoryExists [''/p1/src/nosuchdir'', ''/p2/src/nosuchdir''])"
    using write_decision_order [OF h, of testFS "''nosuchdir/a.txt''"] n1 n2 n3 by simp
  from h d1 d a1 a c1 c2 c b1 b2 b n1 n2 n show ?thesis
    by (intro conjI)
qed

section \<open>Helpers on the file system and on Compare\<close>

lemma WriteFile_Inr:
  "WriteFile parent fs filename data = Inr fs' \<Longrightarrow> fs' = fs(filename := Inr (RegularFile data))"
  by (auto simp: WriteFile_def split: sum.splits node.splits if_splits)

lemma WriteFile_Inl_or_Inr:
  "(\<exists>err. WriteFile parent fs filename data = Inl err) \<or>
   WriteFile parent fs filename data = Inr (fs(filename := Inr (RegularFile data)))"
  by (auto simp: WriteFile_def split: sum.splits node.splits if_splits)

lemma ReadFile_written:
  "ReadFile (fs(filename := Inr (RegularFile data))) filename = Inr data"
  by (simp add: ReadFile_def)

lemma Stat_written:
  "Stat (fs(filename := Inr (RegularFile data))) name = None
     \<longleftrightarrow> name = filename \<or> Stat fs name = None"
  by (simp add: Stat_def split: sum.splits)

lemma Stat_overwritten:
  "fs filename = Inr (RegularFile old) \<Longrightarrow>
   Stat (fs(filename := Inr (RegularFile new))) name = Stat fs name"
  by (simp add: Stat_def)

text \<open>getFullPathForWrite looks at the file system through \<^verbatim>\<open>os.Stat\<close> only.\<close>

lemma writeLoop_Stat_only:
  "\<forall>name. Stat fs1 name = Stat fs2 name \<Longrightarrow>
   writeLoop E fs1 relPath ps maps = writeLoop E fs2 relPath ps maps"
proof (induction ps arbitrary: maps)
  case Nil
  then show ?case by simp
next
  case (Cons p ps)
  obtain ef pd fd where "maps = (ef, pd, fd)"
    by (cases maps) auto
  with Cons show ?case
    by (simp add: Let_def)
qed

lemma getFullPathForWrite_Stat_only:
  "\<forall>name. Stat fs1 name = Stat fs2 name \<Longrightarrow>
   getFullPathForWrite E fs1 relPath = getFullPathForWrite E fs2 relPath"
  by (simp add: getFullPathForWrite_def writeLoop_Stat_only [of fs1 fs2])

lemma WriteFile_overwritten:
  "fs filename = Inr (RegularFile old) \<Longrightarrow>
   WriteFile parent (fs(filename := Inr (RegularFile new))) filename data
     = WriteFile parent fs filename data"
  by (simp add: WriteFile_def)

text \<open>What Compare does with the flag set.\<close>

lemma Compare_update:
  assumes "updateGolden E"
  shows "Compare E fs actual goldenFile =
     (case getFullPathForWrite E fs goldenFile of
        Inl err \<Rightarrow> (Inl (FatalPathForWrite err), fs)
      | Inr fullPath \<Rightarrow>
          (case WriteFile (Dir E) fs fullPath actual of
             Inl err \<Rightarrow> (Inl (FatalWrite err), fs)
           | Inr fs' \<Rightarrow> (Inr [], fs')))"
  using assms by (simp add: Compare_def shouldUpdateGolden_def)

lemma Compare_update_returns:
  assumes "updateGolden E" and "fst (Compare E fs actual goldenFile) = Inr r"
  obtains fullPath where
    "getFullPathForWrite E fs goldenFile = Inr fullPath"
    "WriteFile (Dir E) fs fullPath actual = Inr (fs(fullPath := Inr (RegularFile actual)))"
    "Compare E fs actual goldenFile = (Inr [], fs(fullPath := Inr (RegularFile actual)))"
proof -
  from assms obtain fullPath fs' where
    p: "getFullPathForWrite E fs goldenFile = Inr fullPath" and
    w: "WriteFile (Dir E) fs fullPath actual = Inr fs'"
    by (auto simp: Compare_update split: sum.splits)
  from WriteFile_Inr [OF w] have fs': "fs' = fs(fullPath := Inr (RegularFile actual))" .
  from p w have "Compare E fs actual goldenFile = (Inr [], fs')"
    by (simp add: Compare_update [OF assms(1)])
  with p w fs' show thesis
    by (intro that [of fullPath]) simp_all
qed

lemma Compare_read:
  assumes "\<not> updateGolden E"
    and "getFullPathForRead E fs goldenFile = Inr fullPath"
    and "ReadFile fs fullPath = Inr expected"
  shows "Compare E fs actual goldenFile =
     (if expected = actual then (Inr [], fs)
      else
        (case GetUnifiedDiffString E
                \<lparr>SeqA = SplitLines E expected,
                 FromFile = goldenFile,
                 SeqB = SplitLines E actual,
                 ToFile = TrimSuffix goldenFile ''.golden'' @ ''.actual'',
                 Context = 3\<rparr> of
           Inl err \<Rightarrow> (Inl (FatalDiff err), fs)
         | Inr diffstr \<Rightarrow> (Inr (differsLine @ diffstr), fs)))"
  using assms by (simp add: Compare_def shouldUpdateGolden_def)

text \<open>
  After a write to the path that getFullPathForWrite returned, getFullPathForRead
  returns the same path.
\<close>

lemma read_after_write:
  assumes w: "getFullPathForWrite E fs relPath = Inr path"
  shows "getFullPathForRead (E\<lparr>updateGolden := u\<rparr>) (fs(path := Inr (RegularFile data))) relPath
           = Inr path"
proof -
  let ?fs' = "fs(path := Inr (RegularFile data))"
  let ?E' = "E\<lparr>updateGolden := u\<rparr>"
  from w have ne: "goPaths E \<noteq> []"
    by (auto simp: getFullPathForWrite_def)
  have c: "path \<in> set (candidates E relPath)"
    using w by (rule getFullPathForWrite_Inr_candidate)
  have only: "\<forall>c \<in> set (candidates E relPath). pathExists fs c \<longrightarrow> c = path"
  proof (cases "2 \<le> length (goPaths E)")
    case True
    from getFullPathForWrite_many_Inr [OF True w] show ?thesis
      by (auto simp: existingCandidates_def)
  next
    case False
    moreover from ne have "length (goPaths E) \<noteq> 0"
      by simp
    ultimately have "length (goPaths E) = 1"
      by arith
    then obtain root where "goPaths E = [root]"
      by (cases "goPaths E") auto
    with w show ?thesis
      by (simp add: getFullPathForWrite_def candidates_def)
  qed
  have "readLoop E ?fs' relPath (goPaths E) None = Inr path"
  proof (rule readLoop_unique_existing)
    show "path \<in> (\<lambda>p. Join E [p, ''src'', relPath]) ` set (goPaths E)"
      using c by (simp add: candidates_def)
    show "Stat ?fs' path = None"
      by (simp add: Stat_written)
    show "\<forall>p \<in> set (goPaths E). Stat ?fs' (Join E [p, ''src'', relPath]) = None
            \<longrightarrow> Join E [p, ''src'', relPath] = path"
      using only by (auto simp: Stat_written candidates_def pathExists_def)
  qed
  moreover have "readLoop ?E' ?fs' relPath ps err = readLoop E ?fs' relPath ps err" for ps err
    by (induction ps arbitrary: err) (simp_all add: Let_def)
  ultimately show ?thesis
    using ne by (simp add: getFullPathForRead_def)
qed

lemma differsLine_not_empty: "differsLine \<noteq> []"
  by (simp add: differsLine_def)

lemma TrimSuffix_stem: "TrimSuffix (stem @ suffix) suffix = stem"
  by (simp add: TrimSuffix_def HasSuffix_def)

lemma TrimSuffix_absent: "\<nexists>stem. s = stem @ suffix \<Longrightarrow> TrimSuffix s suffix = s"
proof -
  assume a: "\<nexists>stem. s = stem @ suffix"
  have "\<not> HasSuffix s suffix"
  proof
    assume "HasSuffix s suffix"
    then have "s = take (length s - length suffix) s @ suffix"
      by (metis HasSuffix_def append_take_drop_id)
    with a show False by blast
  qed
  then show ?thesis by (simp add: TrimSuffix_def)
qed

section \<open>Compare without the flag\<close>

text \<open>
  C3: without the flag, when the path resolves to \<open>fullPath\<close> and the file there reads
  as \<open>expected\<close>: Compare returns the empty string exactly when \<open>expected\<close> equals
  \<open>actual\<close>; otherwise, when the diff library gives \<open>diffstr\<close> for the lines of
  \<open>expected\<close> and of \<open>actual\<close>, the from-label \<open>goldenFile\<close>, the to-label and a
  context of 3, Compare returns the line \<open>differsLine\<close> followed by \<open>diffstr\<close>. The
  to-label is \<open>goldenFile\<close> with a trailing \<^verbatim>\<open>.golden\<close> replaced by \<^verbatim>\<open>.actual\<close>, and
  \<open>goldenFile\<close> followed by \<^verbatim>\<open>.actual\<close> when it has no such suffix. \<open>differsLine\<close> is
  one line, which holds the update command in double quotes. The file system is left
  as it was.
\<close>

theorem compare_read_mode:
  assumes "\<not> updateGolden E"
    and "getFullPathForRead E fs goldenFile = Inr fullPath"
    and "ReadFile fs fullPath = Inr expected"
  shows
   "(fst (Compare E fs actual goldenFile) = Inr [] \<longleftrightarrow> expected = actual) \<and>
    (expected \<noteq> actual \<longrightarrow>
       (\<forall>diffstr.
          GetUnifiedDiffString E
            \<lparr>SeqA = SplitLines E expected,
             FromFile = goldenFile,
             SeqB = SplitLines E actual,
             ToFile = TrimSuffix goldenFile ''.golden'' @ ''.actual'',
             Context = 3\<rparr> = Inr diffstr
          \<longrightarrow> fst (Compare E fs actual goldenFile) = Inr (differsLine @ diffstr))) \<and>
    (\<forall>stem. goldenFile = stem @ ''.golden''
       \<longrightarrow> TrimSuffix goldenFile ''.golden'' @ ''.actual'' = stem @ ''.actual'') \<and>
    ((\<nexists>stem. goldenFile = stem @ ''.golden'')
       \<longrightarrow> TrimSuffix goldenFile ''.golden'' @ ''.actual'' = goldenFile @ ''.actual'') \<and>
    differsLine =
      ''Actual data differs from golden data; run '' @ [dquote] @ formatUpdateCommand
        @ [dquote] @ '' to update'' @ [newline] \<and>
    newline \<notin> set (butlast differsLine) \<and>
    snd (Compare E fs actual goldenFile) = fs"
proof (intro conjI)
  note c = Compare_read [OF assms, of actual]
  show "fst (Compare E fs actual goldenFile) = Inr [] \<longleftrightarrow> expected = actual"
    unfolding c by (simp add: differsLine_not_empty split: sum.splits)
  show "expected \<noteq> actual \<longrightarrow>
       (\<forall>diffstr.
          GetUnifiedDiffString E
            \<lparr>SeqA = SplitLines E expected,
             FromFile = goldenFile,
             SeqB = SplitLines E actual,
             ToFile = TrimSuffix goldenFile ''.golden'' @ ''.actual'',
             Context = 3\<rparr> = Inr diffstr
          \<longrightarrow> fst (Compare E fs actual goldenFile) = Inr (differsLine @ diffstr))"
    unfolding c by simp
  show "\<forall>stem. goldenFile = stem @ ''.golden''
       \<longrightarrow> TrimSuffix goldenFile ''.golden'' @ ''.actual'' = stem @ ''.actual''"
    by (simp add: TrimSuffix_stem)
  show "(\<nexists>stem. goldenFile = stem @ ''.golden'')
       \<longrightarrow> TrimSuffix goldenFile ''.golden'' @ ''.actual'' = goldenFile @ ''.actual''"
    using TrimSuffix_absent [of goldenFile "''.golden''"] by simp
  show "differsLine =
      ''Actual data differs from golden data; run '' @ [dquote] @ formatUpdateCommand
        @ [dquote] @ '' to update'' @ [newline]"
    by (simp add: differsLine_def Quote_def formatUpdateCommand_def dquote_def backslash_def)
  show "newline \<notin> set (butlast differsLine)"
    by (simp add: differsLine_def Quote_def formatUpdateCommand_def dquote_def backslash_def
        newline_def)
  show "snd (Compare E fs actual goldenFile) = fs"
    unfolding c by (simp split: sum.splits)
qed

theorem compare_read_mode_witness:
  "\<not> updateGolden (exampleEnv [''/p1'', ''/p2''] False) \<and>
   getFullPathForRead (exampleEnv [''/p1'', ''/p2''] False) goldenFS ''testdata/haiku.txt.golden''
     = Inr ''/p1/src/testdata/haiku.txt.golden'' \<and>
   ReadFile goldenFS ''/p1/src/testdata/haiku.txt.golden'' = Inr (''many bits'' @ [newline]) \<and>
   fst (Compare (exampleEnv [''/p1'', ''/p2''] False) goldenFS (''many bits'' @ [newline])
          ''testdata/haiku.txt.golden'') = Inr [] \<and>
   fst (Compare (exampleEnv [''/p1'', ''/p2''] False) goldenFS (''twenty bits'' @ [newline])
          ''testdata/haiku.txt.golden'')
     = Inr (differsLine
            @ ''--- testdata/haiku.txt.golden'' @ [newline]
            @ ''+++ testdata/haiku.txt.actual'' @ [newline]
            @ ''-many bits'' @ [newline] @ ''-'' @ [newline]
            @ ''+twenty bits'' @ [newline] @ ''+'' @ [newline])"
proof -
  let ?E = "exampleEnv [''/p1'', ''/p2''] False"
  let ?g = "''testdata/haiku.txt.golden''"
  have u: "\<not> updateGolden ?E"
    by (simp add: exampleEnv_def)
  have p: "getFullPathForRead ?E goldenFS ?g = Inr ''/p1/src/testdata/haiku.txt.golden''"
    by (simp add: getFullPathForRead_def goldenFS_def example_defs)
  have r: "ReadFile goldenFS ''/p1/src/testdata/haiku.txt.golden'' = Inr (''many bits'' @ [newline])"
    by (simp add: ReadFile_def goldenFS_def)
  note t = compare_read_mode [OF u p r]
  have same: "fst (Compare ?E goldenFS (''many bits'' @ [newline]) ?g) = Inr []"
    using t [of "''many bits'' @ [newline]"] by simp
  have stem: "TrimSuffix ?g ''.golden'' @ ''.actual'' = ''testdata/haiku.txt.actual''"
    using t [of "[]", THEN conjunct2, THEN conjunct2, THEN conjunct1, rule_format,
        of "''testdata/haiku.txt''"]
    by simp
  have d: "GetUnifiedDiffString ?E
            \<lparr>SeqA = SplitLines ?E (''many bits'' @ [newline]),
             FromFile = ?g,
             SeqB = SplitLines ?E (''twenty bits'' @ [newline]),
             ToFile = TrimSuffix ?g ''.golden'' @ ''.actual'',
             Context = 3\<rparr>
        = Inr (''--- testdata/haiku.txt.golden'' @ [newline]
            @ ''+++ testdata/haiku.txt.actual'' @ [newline]
            @ ''-many bits'' @ [newline] @ ''-'' @ [newline]
            @ ''+twenty bits'' @ [newline] @ ''+'' @ [newline])"
    unfolding stem
    by (simp add: exampleEnv_def exampleDiff_def exampleSplitLines_def Let_def newline_def)
  have ne: "''many bits'' @ [newline] \<noteq> ''twenty bits'' @ [newline]"
    by simp
  have differ: "fst (Compare ?E goldenFS (''twenty bits'' @ [newline]) ?g)
     = Inr (differsLine
            @ ''--- testdata/haiku.txt.golden'' @ [newline]
            @ ''+++ testdata/haiku.txt.actual'' @ [newline]
            @ ''-many bits'' @ [newline] @ ''-'' @ [newline]
            @ ''+twenty bits'' @ [newline] @ ''+'' @ [newline])"
    using t [of "''twenty bits'' @ [newline]", THEN conjunct2, THEN conjunct1, rule_format,
        OF ne d] .
  from u p r same differ show ?thesis
    by (intro conjI)
qed

section \<open>Compare with the flag\<close>

text \<open>
  C4: with the flag, when the path resolves to \<open>fullPath\<close> and the write succeeds,
  Compare returns the empty string and the file at \<open>fullPath\<close> holds exactly \<open>actual\<close>,
  byte for byte.
\<close>

theorem compare_write_mode:
  assumes "updateGolden E"
    and "getFullPathForWrite E fs goldenFile = Inr fullPath"
    and "WriteFile (Dir E) fs fullPath actual = Inr fs'"
  shows "Compare E fs actual goldenFile = (Inr [], fs') \<and>
         fs' fullPath = Inr (RegularFile actual) \<and>
         ReadFile fs' fullPath = Inr actual"
proof -
  from assms have "Compare E fs actual goldenFile = (Inr [], fs')"
    by (simp add: Compare_update)
  moreover from WriteFile_Inr [OF assms(3)] have "fs' = fs(fullPath := Inr (RegularFile actual))" .
  ultimately show ?thesis
    by (simp add: ReadFile_written)
qed

theorem compare_write_mode_witness:
  "updateGolden (exampleEnv [''/tmp''] True) \<and>
   getFullPathForWrite (exampleEnv [''/tmp''] True) updateFS ''fake/testdata/haiku.txt.golden''
     = Inr ''/tmp/src/fake/testdata/haiku.txt.golden'' \<and>
   fst (Compare (exampleEnv [''/tmp''] True) updateFS ''This is the new contents''
          ''fake/testdata/haiku.txt.golden'') = Inr [] \<and>
   ReadFile (snd (Compare (exampleEnv [''/tmp''] True) updateFS ''This is the new contents''
                    ''fake/testdata/haiku.txt.golden''))
       ''/tmp/src/fake/testdata/haiku.txt.golden''
     = Inr ''This is the new contents''"
proof -
  let ?E = "exampleEnv [''/tmp''] True"
  let ?g = "''fake/testdata/haiku.txt.golden''"
  let ?p = "''/tmp/src/fake/testdata/haiku.txt.golden''"
  let ?fs' = "updateFS(?p := Inr (RegularFile ''This is the new contents''))"
  have u: "updateGolden ?E"
    by (simp add: exampleEnv_def)
  have p: "getFullPathForWrite ?E updateFS ?g = Inr ?p"
    by (simp add: getFullPathForWrite_def exampleEnv_def exampleJoin_def)
  have w: "WriteFile (Dir ?E) updateFS ?p ''This is the new contents'' = Inr ?fs'"
    by (simp add: WriteFile_def updateFS_def emptyFS_def exampleEnv_def exampleDir_def)
  from compare_write_mode [OF u p w] u p show ?thesis
    by simp
qed

section \<open>Writing, then reading\<close>

text \<open>
  C5: when Compare with the flag has returned for the value \<open>V\<close>, leaving the file
  system \<open>fs'\<close>, Compare without the flag on \<open>fs'\<close>, for the same value and path,
  returns the empty string and leaves \<open>fs'\<close> as it is.
\<close>

theorem write_then_read_matches:
  assumes "updateGolden E"
    and "Compare E fs V goldenFile = (Inr r, fs')"
  shows "Compare (E\<lparr>updateGolden := False\<rparr>) fs' V goldenFile = (Inr [], fs')"
proof -
  from assms(2) have "fst (Compare E fs V goldenFile) = Inr r"
    by simp
  with assms(1) obtain fullPath where
    p: "getFullPathForWrite E fs goldenFile = Inr fullPath" and
    c: "Compare E fs V goldenFile = (Inr [], fs(fullPath := Inr (RegularFile V)))"
    by (rule Compare_update_returns)
  from c assms(2) have fs': "fs' = fs(fullPath := Inr (RegularFile V))"
    by simp
  have "getFullPathForRead (E\<lparr>updateGolden := False\<rparr>) fs' goldenFile = Inr fullPath"
    unfolding fs' using p by (rule read_after_write)
  moreover have "ReadFile fs' fullPath = Inr V"
    unfolding fs' by (rule ReadFile_written)
  moreover have "\<not> updateGolden (E\<lparr>updateGolden := False\<rparr>)"
    by simp
  ultimately show ?thesis
    by (simp add: Compare_read)
qed

theorem write_then_read_matches_witness:
  "updateGolden (exampleEnv [''/p1'', ''/p2''] True) \<and>
   fst (Compare (exampleEnv [''/p1'', ''/p2''] True) testFS ''new contents'' ''baz/new.txt'')
     = Inr [] \<and>
   fst (Compare (exampleEnv [''/p1'', ''/p2''] True\<lparr>updateGolden := False\<rparr>)
          (snd (Compare (exampleEnv [''/p1'', ''/p2''] True) testFS ''new contents''
                  ''baz/new.txt''))
          ''new contents'' ''baz/new.txt'')
     = Inr []"
proof -
  let ?E = "exampleEnv [''/p1'', ''/p2''] True"
  let ?c = "Compare ?E testFS ''new contents'' ''baz/new.txt''"
  have u: "updateGolden ?E"
    by (simp add: exampleEnv_def)
  have f: "fst ?c = Inr []"
    by code_simp
  then have c: "?c = (Inr [], snd ?c)"
    by (metis prod.collapse)
  from write_then_read_matches [OF u c] u f show ?thesis
    by simp
qed

section \<open>What Compare changes with the flag set\<close>

text \<open>
  With two roots or more and no existing candidate, getFullPathForWrite decides on the
  candidates whose directory exists.
\<close>

lemma getFullPathForWrite_by_directories:
  assumes "2 \<le> length (goPaths E)" and "existingCandidates E fs relPath = {}"
  shows
   "(card (candidatesWithExistingDir E fs relPath) = 1 \<longrightarrow>
       (\<exists>path. candidatesWithExistingDir E fs relPath = {path} \<and>
               getFullPathForWrite E fs relPath = Inr path)) \<and>
    (1 < card (candidatesWithExistingDir E fs relPath) \<longrightarrow>
       getFullPathForWrite E fs relPath =
         Inl (MultipleDirectories (sorted_list_of_set (candidatesWithExistingDir E fs relPath))))"
proof -
  from assms(1) obtain ef pd fd where
    w: "writeLoop E fs relPath (goPaths E) ([], [], []) = (ef, pd, fd)" and
    r: "getFullPathForWrite E fs relPath =
       (if length ef > 1 then Inl (MultipleFiles relPath (sortedKeys ef))
        else if length ef = 1 then Inr (hd ef)
        else if length fd > 1 then Inl (MultipleDirectories (sortedKeys fd))
        else if length fd = 1 then Inr (hd fd)
        else Inl (NoDirectoryExists (sortedKeys pd)))"
    by (rule getFullPathForWrite_many)
  note m = writeLoop_maps [OF w]
  from m assms(2) have ef: "ef = []"
    by simp
  from m have cfd: "card (candidatesWithExistingDir E fs relPath) = length fd"
    by (metis distinct_card)
  from m have sfd: "sortedKeys fd = sorted_list_of_set (candidatesWithExistingDir E fs relPath)"
    by (metis sortedKeys_distinct)
  have hfd: "length fd = 1 \<Longrightarrow> candidatesWithExistingDir E fs relPath = {hd fd}"
    using one_key [of fd] m by simp
  show ?thesis
    unfolding cfd r ef
    using sfd hfd by simp
qed

text \<open>The candidates that exist once the only existing one is removed.\<close>

lemma existingCandidates_removed:
  assumes "getFullPathForWrite E fs relPath = Inr target"
    and "2 \<le> length (goPaths E)"
    and "fs target = Inr (RegularFile old)"
  shows "existingCandidates E (fs(target := Inl ENOENT)) relPath = {}"
proof -
  let ?fs2 = "fs(target := Inl ENOENT)"
  have t: "target \<in> set (candidates E relPath)"
    using assms(1) by (rule getFullPathForWrite_Inr_candidate)
  from assms(3) have "pathExists fs target"
    by (simp add: pathExists_def Stat_def)
  with t have "target \<in> existingCandidates E fs relPath"
    by (simp add: existingCandidates_def)
  with getFullPathForWrite_many_Inr [OF assms(2) assms(1)]
  have one: "existingCandidates E fs relPath = {target}"
    by blast
  have "\<not> pathExists ?fs2 c" if c: "c \<in> set (candidates E relPath)" for c
  proof (cases "c = target")
    case True
    then show ?thesis
      by (simp add: pathExists_def Stat_def)
  next
    case False
    have "\<not> pathExists fs c"
    proof
      assume "pathExists fs c"
      with c have "c \<in> existingCandidates E fs relPath"
        by (simp add: existingCandidates_def)
      with one False show False
        by simp
    qed
    with False show ?thesis
      by (simp add: pathExists_def Stat_def)
  qed
  then show ?thesis
    by (simp add: existingCandidates_def filter_empty_conv)
qed

text \<open>
  Compare with the flag, on the file system without the target and on the one with it,
  when the run without the target resolves to it as well.
\<close>

lemma Compare_update_created:
  assumes "updateGolden E"
    and "getFullPathForWrite E (fs(target := Inl ENOENT)) goldenFile = Inr target"
    and "getFullPathForWrite E fs goldenFile = Inr target"
    and "fs target = Inr (RegularFile old)"
    and "fs (Dir E target) = Inr Directory"
    and "Dir E target \<noteq> target"
  shows "Compare E (fs(target := Inl ENOENT)) actual goldenFile = Compare E fs actual goldenFile"
proof -
  let ?fs2 = "fs(target := Inl ENOENT)"
  from assms(5,6) have "WriteFile (Dir E) ?fs2 target actual
      = Inr (?fs2(target := Inr (RegularFile actual)))"
    by (simp add: WriteFile_def)
  with assms(1,2) have "Compare E ?fs2 actual goldenFile
      = (Inr [], ?fs2(target := Inr (RegularFile actual)))"
    by (simp add: Compare_update)
  moreover from assms(4) have "WriteFile (Dir E) fs target actual
      = Inr (fs(target := Inr (RegularFile actual)))"
    by (simp add: WriteFile_def)
  with assms(1,3) have "Compare E fs actual goldenFile
      = (Inr [], fs(target := Inr (RegularFile actual)))"
    by (simp add: Compare_update)
  ultimately show ?thesis
    by simp
qed

text \<open>
  C9 as it is stated fails on the code in its last part (the outcome does not depend
  on whether the target existed). Both roots have the directory \<^verbatim>\<open>foobar\<close>. The two
  file systems differ at the target \<^verbatim>\<open>/p1/src/foobar/c.txt\<close> only: where it is a file,
  getFullPathForWrite returns it and Compare returns the empty string; where it is
  absent, getFullPathForWrite fails with the error MultipleDirectories and Compare
  exits.
\<close>

theorem compare_write_existence_counterexample:
  "updateGolden (exampleEnv [''/p1'', ''/p2''] True) \<and>
   \<not> pathExists testFS ''/p1/src/foobar/c.txt'' \<and>
   getFullPathForWrite (exampleEnv [''/p1'', ''/p2''] True)
       (testFS(''/p1/src/foobar/c.txt'' := Inr (RegularFile ''old''))) ''foobar/c.txt''
     = Inr ''/p1/src/foobar/c.txt'' \<and>
   fst (Compare (exampleEnv [''/p1'', ''/p2''] True)
          (testFS(''/p1/src/foobar/c.txt'' := Inr (RegularFile ''old''))) ''new'' ''foobar/c.txt'')
     = Inr [] \<and>
   fst (Compare (exampleEnv [''/p1'', ''/p2''] True) testFS ''new'' ''foobar/c.txt'')
     = Inl (FatalPathForWrite
              (MultipleDirectories [''/p1/src/foobar/c.txt'', ''/p2/src/foobar/c.txt''])) \<and>
   fst (Compare (exampleEnv [''/p1'', ''/p2''] True) testFS ''new'' ''foobar/c.txt'')
     \<noteq> fst (Compare (exampleEnv [''/p1'', ''/p2''] True)
              (testFS(''/p1/src/foobar/c.txt'' := Inr (RegularFile ''old''))) ''new''
              ''foobar/c.txt'')"
proof -
  let ?E = "exampleEnv [''/p1'', ''/p2''] True"
  let ?fs = "testFS(''/p1/src/foobar/c.txt'' := Inr (RegularFile ''old''))"
  have u: "updateGolden ?E"
    by (simp add: exampleEnv_def)
  have a: "\<not> pathExists testFS ''/p1/src/foobar/c.txt''"
    by (simp add: example_defs)
  have p: "getFullPathForWrite ?E ?fs ''foobar/c.txt'' = Inr ''/p1/src/foobar/c.txt''"
    by code_simp
  have r: "fst (Compare ?E ?fs ''new'' ''foobar/c.txt'') = Inr []"
    by code_simp
  have f: "fst (Compare ?E testFS ''new'' ''foobar/c.txt'')
     = Inl (FatalPathForWrite
              (MultipleDirectories [''/p1/src/foobar/c.txt'', ''/p2/src/foobar/c.txt'']))"
    by code_simp
  have d: "fst (Compare ?E testFS ''new'' ''foobar/c.txt'')
     \<noteq> fst (Compare ?E ?fs ''new'' ''foobar/c.txt'')"
    unfolding r f by simp
  from u a p r f d show ?thesis
    by (intro conjI)
qed

text \<open>
  C9, amended: with the flag, Compare either exits with a fatal error and leaves the
  file system as it was, or returns the empty string and leaves the file system with
  the resolved path holding \<open>actual\<close> and nothing else changed; so every path other
  than the resolved one is as before. The prior contents of the target are not read:
  replacing them by any other contents changes neither the outcome nor the file system
  that is left. Whether the target existed matters through the resolution only. Take
  a target that is a regular file in a directory, and the same file system without it.
  With exactly one root, or with two roots or more when the target is then the only
  candidate whose directory exists, both runs give the same outcome and leave the same
  file system. With two roots or more, when more than one candidate has an existing
  directory, the run with the target returns the empty string and the run without it
  exits with the error MultipleDirectories.
\<close>

theorem compare_write_frame:
  assumes "updateGolden E"
  shows
   "((\<exists>err. Compare E fs actual goldenFile = (Inl err, fs)) \<or>
     (\<exists>target. getFullPathForWrite E fs goldenFile = Inr target \<and>
        Compare E fs actual goldenFile = (Inr [], fs(target := Inr (RegularFile actual))))) \<and>
    (\<forall>name. getFullPathForWrite E fs goldenFile \<noteq> Inr name
       \<longrightarrow> snd (Compare E fs actual goldenFile) name = fs name) \<and>
    (\<forall>target old new.
       getFullPathForWrite E fs goldenFile = Inr target \<and> fs target = Inr (RegularFile old)
       \<longrightarrow> Compare E (fs(target := Inr (RegularFile new))) actual goldenFile
             = Compare E fs actual goldenFile) \<and>
    (\<forall>target old.
       getFullPathForWrite E fs goldenFile = Inr target \<and> fs target = Inr (RegularFile old) \<and>
       fs (Dir E target) = Inr Directory \<and> Dir E target \<noteq> target
       \<longrightarrow>
         (length (goPaths E) = 1 \<or>
          card (candidatesWithExistingDir E (fs(target := Inl ENOENT)) goldenFile) = 1
            \<longrightarrow> Compare E (fs(target := Inl ENOENT)) actual goldenFile
                  = Compare E fs actual goldenFile) \<and>
         (2 \<le> length (goPaths E) \<and>
          1 < card (candidatesWithExistingDir E (fs(target := Inl ENOENT)) goldenFile)
            \<longrightarrow> Compare E fs actual goldenFile
                    = (Inr [], fs(target := Inr (RegularFile actual))) \<and>
                Compare E (fs(target := Inl ENOENT)) actual goldenFile
                    = (Inl (FatalPathForWrite (MultipleDirectories (sorted_list_of_set
                         (candidatesWithExistingDir E (fs(target := Inl ENOENT)) goldenFile)))),
                       fs(target := Inl ENOENT))))"
proof (intro conjI allI impI)
  note c = Compare_update [OF assms]
  show "(\<exists>err. Compare E fs actual goldenFile = (Inl err, fs)) \<or>
     (\<exists>target. getFullPathForWrite E fs goldenFile = Inr target \<and>
        Compare E fs actual goldenFile = (Inr [], fs(target := Inr (RegularFile actual))))"
  proof (cases "getFullPathForWrite E fs goldenFile")
    case (Inl err)
    then show ?thesis by (simp add: c)
  next
    case (Inr target)
    with WriteFile_Inl_or_Inr [of "Dir E" fs target actual] show ?thesis
      by (auto simp: c)
  qed
next
  fix name
  assume n: "getFullPathForWrite E fs goldenFile \<noteq> Inr name"
  show "snd (Compare E fs actual goldenFile) name = fs name"
  proof (cases "getFullPathForWrite E fs goldenFile")
    case (Inl err)
    then show ?thesis by (simp add: Compare_update [OF assms])
  next
    case (Inr target)
    with n have "name \<noteq> target" by auto
    with Inr WriteFile_Inl_or_Inr [of "Dir E" fs target actual] show ?thesis
      by (auto simp: Compare_update [OF assms])
  qed
next
  fix target old new
  assume a: "getFullPathForWrite E fs goldenFile = Inr target \<and> fs target = Inr (RegularFile old)"
  let ?fs2 = "fs(target := Inr (RegularFile new))"
  from a have "\<forall>name. Stat ?fs2 name = Stat fs name"
    by (simp add: Stat_overwritten)
  then have p: "getFullPathForWrite E ?fs2 goldenFile = getFullPathForWrite E fs goldenFile"
    by (rule getFullPathForWrite_Stat_only)
  from a have w: "WriteFile (Dir E) fs target actual = Inr (fs(target := Inr (RegularFile actual)))"
    by (simp add: WriteFile_def)
  have w2: "WriteFile (Dir E) ?fs2 target actual = Inr (?fs2(target := Inr (RegularFile actual)))"
    by (simp add: WriteFile_def)
  from a p w w2 show "Compare E ?fs2 actual goldenFile = Compare E fs actual goldenFile"
    by (simp add: Compare_update [OF assms])
next
  fix target old
  assume a: "getFullPathForWrite E fs goldenFile = Inr target \<and> fs target = Inr (RegularFile old) \<and>
       fs (Dir E target) = Inr Directory \<and> Dir E target \<noteq> target"
  assume b: "length (goPaths E) = 1 \<or>
          card (candidatesWithExistingDir E (fs(target := Inl ENOENT)) goldenFile) = 1"
  let ?fs2 = "fs(target := Inl ENOENT)"
  from a have "getFullPathForWrite E fs goldenFile = Inr target"
    by simp
  then have t: "target \<in> set (candidates E goldenFile)"
    by (rule getFullPathForWrite_Inr_candidate)
  from a have "pathExists ?fs2 (Dir E target)"
    by (simp add: pathExists_def Stat_def)
  with t have wd: "target \<in> candidatesWithExistingDir E ?fs2 goldenFile"
    by (simp add: candidatesWithExistingDir_def)
  have "getFullPathForWrite E ?fs2 goldenFile = Inr target"
  proof (cases "length (goPaths E) = 1")
    case True
    with a show ?thesis
      by (simp add: getFullPathForWrite_def)
  next
    case False
    with b have c1: "card (candidatesWithExistingDir E ?fs2 goldenFile) = 1"
      by simp
    from a have "length (goPaths E) \<noteq> 0"
      by (auto simp: getFullPathForWrite_def)
    with False have two: "2 \<le> length (goPaths E)"
      by arith
    from a have g: "getFullPathForWrite E fs goldenFile = Inr target"
      and o: "fs target = Inr (RegularFile old)"
      by simp_all
    have ex: "existingCandidates E ?fs2 goldenFile = {}"
      using g two o by (rule existingCandidates_removed)
    from getFullPathForWrite_by_directories [OF two ex] c1 obtain path where
      "candidatesWithExistingDir E ?fs2 goldenFile = {path}"
      "getFullPathForWrite E ?fs2 goldenFile = Inr path"
      by auto
    with wd show ?thesis
      by simp
  qed
  moreover from a have "getFullPathForWrite E fs goldenFile = Inr target"
    and "fs target = Inr (RegularFile old)"
    and "fs (Dir E target) = Inr Directory"
    and "Dir E target \<noteq> target"
    by simp_all
  ultimately show "Compare E ?fs2 actual goldenFile = Compare E fs actual goldenFile"
    by (rule Compare_update_created [OF assms])
next
  fix target old
  assume a: "getFullPathForWrite E fs goldenFile = Inr target \<and> fs target = Inr (RegularFile old) \<and>
       fs (Dir E target) = Inr Directory \<and> Dir E target \<noteq> target"
  from a have "WriteFile (Dir E) fs target actual = Inr (fs(target := Inr (RegularFile actual)))"
    by (simp add: WriteFile_def)
  with a show "Compare E fs actual goldenFile = (Inr [], fs(target := Inr (RegularFile actual)))"
    by (simp add: Compare_update [OF assms])
next
  fix target old
  assume a: "getFullPathForWrite E fs goldenFile = Inr target \<and> fs target = Inr (RegularFile old) \<and>
       fs (Dir E target) = Inr Directory \<and> Dir E target \<noteq> target"
  assume b: "2 \<le> length (goPaths E) \<and>
          1 < card (candidatesWithExistingDir E (fs(target := Inl ENOENT)) goldenFile)"
  let ?fs2 = "fs(target := Inl ENOENT)"
  from b have two: "2 \<le> length (goPaths E)"
    by simp
  from a have g: "getFullPathForWrite E fs goldenFile = Inr target"
    and o: "fs target = Inr (RegularFile old)"
    by simp_all
  have ex: "existingCandidates E ?fs2 goldenFile = {}"
    using g two o by (rule existingCandidates_removed)
  from getFullPathForWrite_by_directories [OF two ex] b
  have "getFullPathForWrite E ?fs2 goldenFile =
         Inl (MultipleDirectories (sorted_list_of_set
                (candidatesWithExistingDir E ?fs2 goldenFile)))"
    by simp
  then show "Compare E ?fs2 actual goldenFile
      = (Inl (FatalPathForWrite (MultipleDirectories (sorted_list_of_set
                         (candidatesWithExistingDir E ?fs2 goldenFile)))), ?fs2)"
    by (simp add: Compare_update [OF assms])
qed

theorem compare_write_frame_witness:
  "updateGolden (exampleEnv [''/p1'', ''/p2''] True) \<and>
   getFullPathForWrite (exampleEnv [''/p1'', ''/p2''] True) testFS ''foobar/a.txt''
     = Inr ''/p1/src/foobar/a.txt'' \<and>
   Compare (exampleEnv [''/p1'', ''/p2''] True) testFS ''new'' ''foobar/a.txt''
     = (Inr [], testFS(''/p1/src/foobar/a.txt'' := Inr (RegularFile ''new''))) \<and>
   snd (Compare (exampleEnv [''/p1'', ''/p2''] True) testFS ''new'' ''foobar/a.txt'')
       ''/p2/src/foobar/b.txt''
     = testFS ''/p2/src/foobar/b.txt'' \<and>
   Compare (exampleEnv [''/p1'', ''/p2''] True)
       (testFS(''/p1/src/foobar/a.txt'' := Inr (RegularFile ''old contents'')))
       ''new'' ''foobar/a.txt''
     = Compare (exampleEnv [''/p1'', ''/p2''] True) testFS ''new'' ''foobar/a.txt'' \<and>
   card (candidatesWithExistingDir (exampleEnv [''/p1'', ''/p2''] True)
           (testFS(''/p1/src/baz/new.txt'' := Inr (RegularFile ''old''),
                   ''/p1/src/baz/new.txt'' := Inl ENOENT))
           ''baz/new.txt'') = 1 \<and>
   Compare (exampleEnv [''/p1'', ''/p2''] True)
       (testFS(''/p1/src/baz/new.txt'' := Inr (RegularFile ''old''),
               ''/p1/src/baz/new.txt'' := Inl ENOENT))
       ''new'' ''baz/new.txt''
     = Compare (exampleEnv [''/p1'', ''/p2''] True)
         (testFS(''/p1/src/baz/new.txt'' := Inr (RegularFile ''old''))) ''new'' ''baz/new.txt'' \<and>
   card (candidatesWithExistingDir (exampleEnv [''/p1'', ''/p2''] True)
           (testFS(''/p1/src/foobar/c.txt'' := Inr (RegularFile ''old''),
                   ''/p1/src/foobar/c.txt'' := Inl ENOENT))
           ''foobar/c.txt'') = 2 \<and>
   Compare (exampleEnv [''/p1'', ''/p2''] True)
       (testFS(''/p1/src/foobar/c.txt'' := Inr (RegularFile ''old''))) ''new'' ''foobar/c.txt''
     = (Inr [], testFS(''/p1/src/foobar/c.txt'' := Inr (RegularFile ''old''),
                       ''/p1/src/foobar/c.txt'' := Inr (RegularFile ''new''))) \<and>
   fst (Compare (exampleEnv [''/p1'', ''/p2''] True)
          (testFS(''/p1/src/foobar/c.txt'' := Inr (RegularFile ''old''),
                  ''/p1/src/foobar/c.txt'' := Inl ENOENT))
          ''new'' ''foobar/c.txt'')
     = Inl (FatalPathForWrite
              (MultipleDirectories [''/p1/src/foobar/c.txt'', ''/p2/src/foobar/c.txt'']))"
proof -
  let ?E = "exampleEnv [''/p1'', ''/p2''] True"
  let ?a = "''/p1/src/foobar/a.txt''"
  let ?n = "''/p1/src/baz/new.txt''"
  let ?c = "''/p1/src/foobar/c.txt''"
  let ?fsN = "testFS(?n := Inr (RegularFile ''old''))"
  let ?fsC = "testFS(?c := Inr (RegularFile ''old''))"
  have u: "updateGolden ?E"
    by (simp add: exampleEnv_def)
  note t = compare_write_frame [OF u]
  have two: "2 \<le> length (goPaths ?E)"
    by (simp add: exampleEnv_def)
  have p: "getFullPathForWrite ?E testFS ''foobar/a.txt'' = Inr ?a"
    by code_simp
  have f: "fst (Compare ?E testFS ''new'' ''foobar/a.txt'') = Inr []"
    by code_simp
  have c: "Compare ?E testFS ''new'' ''foobar/a.txt''
             = (Inr [], testFS(?a := Inr (RegularFile ''new'')))"
    using t [of testFS "''new''" "''foobar/a.txt''", THEN conjunct1] f p by auto
  have other: "getFullPathForWrite ?E testFS ''foobar/a.txt'' \<noteq> Inr ''/p2/src/foobar/b.txt''"
    unfolding p by simp
  have frame: "snd (Compare ?E testFS ''new'' ''foobar/a.txt'') ''/p2/src/foobar/b.txt''
     = testFS ''/p2/src/foobar/b.txt''"
    using t [of testFS "''new''" "''foobar/a.txt''", THEN conjunct2, THEN conjunct1,
        rule_format, OF other] .
  have old: "testFS ?a = Inr (RegularFile [])"
    by (simp add: testFS_def)
  have contents: "Compare ?E (testFS(?a := Inr (RegularFile ''old contents''))) ''new'' ''foobar/a.txt''
     = Compare ?E testFS ''new'' ''foobar/a.txt''"
    using t [of testFS "''new''" "''foobar/a.txt''", THEN conjunct2, THEN conjunct2,
        THEN conjunct1, rule_format, of ?a "[]" "''old contents''"] p old
    by simp
  have pn: "getFullPathForWrite ?E ?fsN ''baz/new.txt'' = Inr ?n"
    by code_simp
  have on: "?fsN ?n = Inr (RegularFile ''old'')"
    by simp
  have dn: "?fsN (Dir ?E ?n) = Inr Directory"
    by (simp add: exampleEnv_def exampleDir_def testFS_def)
  have nn: "Dir ?E ?n \<noteq> ?n"
    by (simp add: exampleEnv_def exampleDir_def)
  have cn: "card (candidatesWithExistingDir ?E (?fsN(?n := Inl ENOENT)) ''baz/new.txt'') = 1"
    by code_simp
  have hn: "getFullPathForWrite ?E ?fsN ''baz/new.txt'' = Inr ?n \<and>
            ?fsN ?n = Inr (RegularFile ''old'') \<and>
            ?fsN (Dir ?E ?n) = Inr Directory \<and> Dir ?E ?n \<noteq> ?n"
    using pn on dn nn by (intro conjI)
  have existence: "Compare ?E (?fsN(?n := Inl ENOENT)) ''new'' ''baz/new.txt''
     = Compare ?E ?fsN ''new'' ''baz/new.txt''"
    using t [of ?fsN "''new''" "''baz/new.txt''", THEN conjunct2, THEN conjunct2,
        THEN conjunct2, rule_format, OF hn, THEN conjunct1, rule_format] cn
    by blast
  have pc: "getFullPathForWrite ?E ?fsC ''foobar/c.txt'' = Inr ?c"
    by code_simp
  have oc: "?fsC ?c = Inr (RegularFile ''old'')"
    by simp
  have dc: "?fsC (Dir ?E ?c) = Inr Directory"
    by (simp add: exampleEnv_def exampleDir_def testFS_def)
  have nc: "Dir ?E ?c \<noteq> ?c"
    by (simp add: exampleEnv_def exampleDir_def)
  have cc: "card (candidatesWithExistingDir ?E (?fsC(?c := Inl ENOENT)) ''foobar/c.txt'') = 2"
    by code_simp
  have sc: "sorted_list_of_set
              (candidatesWithExistingDir ?E (?fsC(?c := Inl ENOENT)) ''foobar/c.txt'')
        = [''/p1/src/foobar/c.txt'', ''/p2/src/foobar/c.txt'']"
    by code_simp
  have hc: "getFullPathForWrite ?E ?fsC ''foobar/c.txt'' = Inr ?c \<and>
            ?fsC ?c = Inr (RegularFile ''old'') \<and>
            ?fsC (Dir ?E ?c) = Inr Directory \<and> Dir ?E ?c \<noteq> ?c"
    using pc oc dc nc by (intro conjI)
  have gc: "2 \<le> length (goPaths ?E) \<and>
            1 < card (candidatesWithExistingDir ?E (?fsC(?c := Inl ENOENT)) ''foobar/c.txt'')"
    using two cc by simp_all
  note both = t [of ?fsC "''new''" "''foobar/c.txt''", THEN conjunct2, THEN conjunct2,
        THEN conjunct2, rule_format, OF hc, THEN conjunct2, rule_format, OF gc]
  have present: "Compare ?E ?fsC ''new'' ''foobar/c.txt''
     = (Inr [], ?fsC(?c := Inr (RegularFile ''new'')))"
    using both by (rule conjunct1)
  have absent: "fst (Compare ?E (?fsC(?c := Inl ENOENT)) ''new'' ''foobar/c.txt'')
     = Inl (FatalPathForWrite
              (MultipleDirectories [''/p1/src/foobar/c.txt'', ''/p2/src/foobar/c.txt'']))"
    using both [THEN conjunct2] sc by simp
  from u p c frame contents cn existence cc present absent show ?thesis
    by (intro conjI)
qed

end
